theory Spec2Isabelle
  imports Complex_Main
begin

section \<open>Readings and the merge operation\<close>

text \<open>
  \<^verbatim>\<open>type MetricType int\<close> with \<^verbatim>\<open>Counter MetricType = iota + 1\<close> and \<^verbatim>\<open>Instant\<close>
  after it: the two named values are 1 and 2, and every other integer (0, the zero
  value, among them) is a MetricType too. Only equality is ever used on it.
\<close>

type_synonym MetricType = int

definition Counter :: MetricType where
  "Counter = 1"

definition Instant :: MetricType where
  "Instant = 2"

text \<open>
  \<^verbatim>\<open>type Reading struct { Key string; Value float64; Time string; Type MetricType }\<close>.
  The float64 of \<open>Value\<close> is kept abstract: a type \<open>'v\<close> with an addition, which
  stands for the IEEE addition of \<^verbatim>\<open>result.Value += new.Value\<close>. Nothing below
  uses a law of that addition, so every theorem holds for float64 as it is.
\<close>

record 'v Reading =
  Key :: string
  Value :: 'v
  Time :: string
  Type :: MetricType

text \<open>
  \<^verbatim>\<open>func (r *Reading) Accept(new *Reading) *Reading\<close>, on the two pointees:
  \<^verbatim>\<open>result := *r\<close> copies the receiver, the branches update the copy, and the address
  of the copy is returned. Neither argument is written to.
\<close>

definition Accept :: "('v::plus) Reading \<Rightarrow> 'v Reading \<Rightarrow> 'v Reading" where
  "Accept r new =
     (let result = r in
      if Type new = Counter then
        result\<lparr>Value := Value result + Value new, Time := Time new\<rparr>
      else if Type new = Instant then
        result\<lparr>Value := Value new, Time := Time new\<rparr>
      else result)"

section \<open>The aggregation table and its consumer loop\<close>

text \<open>
  What travels on \<^verbatim>\<open>chan interface{}\<close>: the nil interface, a \<^verbatim>\<open>*Reading\<close> (which
  may itself be a nil pointer), or a value of any other dynamic type.
\<close>

datatype 'v iface =
    INil
  | IReading "'v Reading option"
  | IOther

text \<open>
  One execution of \<^verbatim>\<open>w, ok := <-m.channel\<close>: a value that a sender handed over, or
  the closed channel, which delivers the zero value of the element type (the nil
  interface) with \<^verbatim>\<open>ok == false\<close>.
\<close>

datatype 'v receive =
    Received "'v iface"
  | ChannelClosed

fun recv :: "'v receive \<Rightarrow> 'v iface \<times> bool" where
  "recv (Received w) = (w, True)"
| "recv ChannelClosed = (INil, False)"

datatype panic =
    InterfaceConversion
  | NilDereference

text \<open>
  \<^verbatim>\<open>lines map[string]*Reading\<close>. The loop stores a pointer either after it has read
  \<^verbatim>\<open>reading.Key\<close> through it or as the result of \<open>Accept\<close>, so every stored pointer
  is non-nil and the table is a map from keys to readings.
\<close>

type_synonym 'v lines = "string \<rightharpoonup> 'v Reading"

datatype 'v step =
    Continue "'v lines"
  | Break "'v lines"
  | Panic panic

text \<open>
  The body of the \<^verbatim>\<open>for\<close> loop in \<open>NewMetrics\<close>, given what the receive returned.
  The single-value type assertion \<^verbatim>\<open>w.(*Reading)\<close> comes first and panics unless the
  dynamic type is \<^verbatim>\<open>*Reading\<close>; then \<^verbatim>\<open>if !ok { break }\<close>; then the table update.
\<close>

fun loop_body :: "('v::plus) lines \<Rightarrow> 'v iface \<times> bool \<Rightarrow> 'v step" where
  "loop_body lines (IReading reading, ok) =
     (if \<not> ok then Break lines
      else (case reading of
              None \<Rightarrow> Panic NilDereference
            | Some rd \<Rightarrow>
                (case lines (Key rd) of
                   Some val \<Rightarrow> Continue (lines(Key rd \<mapsto> Accept val rd))
                 | None \<Rightarrow> Continue (lines(Key rd \<mapsto> rd)))))"
| "loop_body lines (INil, ok) = Panic InterfaceConversion"
| "loop_body lines (IOther, ok) = Panic InterfaceConversion"

text \<open>
  The goroutine of \<open>NewMetrics\<close> run on the receives it is given, in order. When they
  are used up the goroutine is blocked in the receive; a panic that nothing recovers
  ends the program.
\<close>

datatype 'v outcome =
    Blocked "'v lines"
  | Exited "'v lines"
  | Panicked panic "'v lines"

fun worker :: "('v::plus) lines \<Rightarrow> 'v receive list \<Rightarrow> 'v outcome" where
  "worker lines [] = Blocked lines"
| "worker lines (e # es) =
     (case loop_body lines (recv e) of
        Continue lines' \<Rightarrow> worker lines' es
      | Break lines' \<Rightarrow> Exited lines'
      | Panic p \<Rightarrow> Panicked p lines)"


text \<open>Sending the address of a reading on the channel.\<close>

definition submit :: "'v Reading \<Rightarrow> 'v receive" where
  "submit rd = Received (IReading (Some rd))"

text \<open>
  The specification's wording of the stored value for one key: the left fold of the merge
  over the readings submitted for that key, the first one taken as it is.
\<close>

definition merge_fold :: "('v::plus) Reading list \<Rightarrow> 'v Reading option" where
  "merge_fold rs = (case rs of [] \<Rightarrow> None | r # rest \<Rightarrow> Some (foldl Accept r rest))"

definition for_key :: "string \<Rightarrow> 'v Reading list \<Rightarrow> 'v Reading list" where
  "for_key k rs = filter (\<lambda>r. Key r = k) rs"

text \<open>The dynamic type of what a receive delivers is \<^verbatim>\<open>*Reading\<close>.\<close>

definition has_type_Reading :: "'v receive \<Rightarrow> bool" where
  "has_type_Reading e = (case e of Received (IReading p) \<Rightarrow> True | _ \<Rightarrow> False)"

section \<open>The exposition handler\<close>

text \<open>
  \<^verbatim>\<open>w.Write(b)\<close> on the \<^verbatim>\<open>http.ResponseWriter\<close>: the bytes are appended to the
  response body.
\<close>

definition Write :: "string \<Rightarrow> string \<Rightarrow> string" where
  "Write w b = w @ b"

text \<open>
  \<^verbatim>\<open>for k, v := range m.lines\<close> visits every entry of the map once, in an order
  that the language leaves open. The order is the list \<open>kvs\<close> of the entries as the
  loop meets them; \<open>ranges_over\<close> says that such a list is an iteration of the table.
\<close>

definition ranges_over :: "(string \<times> 'v Reading) list \<Rightarrow> 'v lines \<Rightarrow> bool" where
  "ranges_over kvs lines = (distinct (map fst kvs) \<and> map_of kvs = lines)"

text \<open>
  The handler that \<open>CreateHandler\<close> returns, run on an empty response body.
  \<open>Sprintf_f\<close> is \<^verbatim>\<open>fmt.Sprintf("%f", _)\<close> on float64, which belongs to Go's
  library and is a parameter here.
\<close>

fun handler_loop :: "('v \<Rightarrow> string) \<Rightarrow> (string \<times> 'v Reading) list \<Rightarrow> string \<Rightarrow> string" where
  "handler_loop Sprintf_f [] w = w"
| "handler_loop Sprintf_f ((k, v) # kvs) w =
     handler_loop Sprintf_f kvs
       (Write (Write (Write (Write w k) '' '') (Sprintf_f (Value v))) ''\<newline>'')"

definition CreateHandler :: "('v \<Rightarrow> string) \<Rightarrow> (string \<times> 'v Reading) list \<Rightarrow> string" where
  "CreateHandler Sprintf_f kvs = handler_loop Sprintf_f kvs []"

text \<open>One line of the response, as the specification words it: key, a space, the value, a newline.\<close>

definition line :: "('v \<Rightarrow> string) \<Rightarrow> string \<times> 'v Reading \<Rightarrow> string" where
  "line Sprintf_f kv = fst kv @ '' '' @ Sprintf_f (Value (snd kv)) @ ''\<newline>''"

section \<open>The unused rendering helper\<close>

text \<open>\<^verbatim>\<open>fmt.Sprintf("%d", time)\<close> for an \<^verbatim>\<open>int64\<close>: the decimal digits, with a sign when negative.\<close>

fun digits :: "nat \<Rightarrow> string" where
  "digits n = (if n < 10 then [''0123456789'' ! n]
               else digits (n div 10) @ [''0123456789'' ! (n mod 10)])"

declare digits.simps [simp del]

definition Sprintf_d :: "int \<Rightarrow> string" where
  "Sprintf_d i = (if i < 0 then ''-'' @ digits (nat (- i)) else digits (nat i))"

text \<open>
  The two nested \<^verbatim>\<open>range\<close> loops of \<open>render\<close>, with the variable \<open>first\<close> and the
  buffer as state. Each label map is given as the list of its entries in iteration order.
\<close>

fun render_map :: "(string \<times> string) list \<Rightarrow> bool \<times> string \<Rightarrow> bool \<times> string" where
  "render_map [] (first, buffer) = (first, buffer)"
| "render_map ((k, v) # l) (first, buffer) =
     (let (first, buffer) = (if \<not> first then (first, buffer @ '', '') else (False, buffer));
          buffer = buffer @ k;
          buffer = buffer @ ''='' @ [CHR 0x22];
          buffer = buffer @ v;
          buffer = buffer @ [CHR 0x22]
      in render_map l (first, buffer))"

fun render_labels :: "(string \<times> string) list list \<Rightarrow> bool \<times> string \<Rightarrow> bool \<times> string" where
  "render_labels [] st = st"
| "render_labels (l # labels) st = render_labels labels (render_map l st)"

definition render :: "string \<Rightarrow> string \<Rightarrow> int \<Rightarrow> (string \<times> string) list list \<Rightarrow> string" where
  "render name value time labels =
     (let buffer = ''{'';
          first = True;
          (first, buffer) = render_labels labels (first, buffer);
          buffer = buffer @ ''} '';
          buffer = buffer @ value;
          buffer = buffer @ '' '';
          buffer = buffer @ Sprintf_d time
      in buffer)"

section \<open>The goroutines of the watch reconnector and of the list poller\<close>

text \<open>
  The fields of \<^verbatim>\<open>metav1.ListOptions\<close> that the program sets; a field left out of the
  literal is the empty string or \<open>False\<close>.
\<close>

record ListOptions =
  Watch :: bool
  AllowWatchBookmarks :: bool
  ResourceVersion :: string

text \<open>\<^verbatim>\<open>time.Duration\<close> counts nanoseconds.\<close>

definition Second :: int where
  "Second = 1000000000"

datatype EventType = Added | Modified | Deleted | Bookmark | Error

datatype 'o Event = Event (Event_Type: EventType) (Object: 'o)

datatype Level = Info | Err | Debug

text \<open>
  A goroutine is described by the trace of what it does with its environment, in program
  order: the calls it makes and what they return, what it receives from a channel, what
  it logs (level, message, field), prints and sends, and its sleeps. The type \<open>'o\<close> is
  that of the values of type \<^verbatim>\<open>interface{}\<close> and \<^verbatim>\<open>runtime.Object\<close> that pass through.
\<close>

datatype 'o action =
    Log Level string string
  | WatchCall ListOptions
  | WatchReturned "string option"
  | EventsRecv "'o Event option"
  | CloseRecv
  | TickRecv
  | ListCall ListOptions
  | ListReturned "'o list" "string option"
  | Printf string 'o
  | Sleep int
  | Send 'o

text \<open>How the inputs given to a goroutine leave it: returned, or waiting for more.\<close>

datatype status = Returned | InWatch | InSelect

text \<open>
  What one execution of the \<^verbatim>\<open>select\<close> in \<open>NewWatcher\<close> takes: an event from the
  result channel (\<open>None\<close> when the channel is closed, \<^verbatim>\<open>open == false\<close>) or the close signal.
\<close>

datatype 'o select_case =
    EventsCase "'o Event option"
  | CloseCase

text \<open>
  What one call of \<^verbatim>\<open>watcher.Watch\<close> leads to: an error, or a result channel, with the
  outcomes of the \<^verbatim>\<open>select\<close> statements executed on it, in order. Outcomes after the
  one that leaves the inner loop are never read.
\<close>

datatype 'o session =
    WatchFails string
  | WatchOpens "'o select_case list"

text \<open>
  The body of \<^verbatim>\<open>case e, open := <-events\<close> for an open channel. \<open>Scheme_Convert\<close> is
  \<^verbatim>\<open>scheme.Scheme.Convert(e.Object, &pod, nil)\<close> on a zero \<^verbatim>\<open>apiv1.Pod\<close>: it gives the
  error, if any, and \<^verbatim>\<open>pod.ResourceVersion\<close> after the call; \<open>Convert\<close> is the
  \<^verbatim>\<open>Convert\<close> of the \<^verbatim>\<open>Watcher\<close> interface. After logging a conversion error the code goes
  on with the statements that follow. The result is the trace and the new \<open>bookmark\<close>.
\<close>

definition handle_event ::
  "('o \<Rightarrow> string option \<times> string) \<Rightarrow> ('o Event \<Rightarrow> 'o \<times> string option) \<Rightarrow>
   string \<Rightarrow> 'o Event \<Rightarrow> 'o action list \<times> string" where
  "handle_event Scheme_Convert Convert bookmark e =
     (if Event_Type e = Bookmark then
        (let (err, pod_ResourceVersion) = Scheme_Convert (Object e)
         in ((case err of Some m \<Rightarrow> [Log Err ''Converting bookmark'' m] | None \<Rightarrow> []) @
             [Log Debug ''Bookmark received'' pod_ResourceVersion],
             pod_ResourceVersion))
      else
        (let (object, err) = Convert e
         in ((case err of Some m \<Rightarrow> [Log Err ''Converting object'' m] | None \<Rightarrow> []) @
             [Printf ''NewWatcher: %+v\<newline>'' object],
             bookmark)))"

text \<open>
  The loop labelled \<^verbatim>\<open>W\<close>. The \<open>open\<close> of its condition is the outer variable, which the
  \<^verbatim>\<open>open\<close> declared in the \<^verbatim>\<open>case\<close> shadows and never changes. The result is the trace and,
  when the loop is left, the values of \<open>done\<close> and \<open>bookmark\<close>; \<open>None\<close> when the
  goroutine waits in the \<^verbatim>\<open>select\<close> with nothing more to take.
\<close>

fun event_loop ::
  "('o \<Rightarrow> string option \<times> string) \<Rightarrow> ('o Event \<Rightarrow> 'o \<times> string option) \<Rightarrow>
   bool \<Rightarrow> bool \<Rightarrow> string \<Rightarrow> 'o select_case list \<Rightarrow>
   'o action list \<times> (bool \<times> string) option" where
  "event_loop Scheme_Convert Convert done opn bookmark ins =
     (if \<not> done \<and> opn then
        (case ins of
           [] \<Rightarrow> ([], None)
         | EventsCase None # rest \<Rightarrow>
             ([EventsRecv None, Log Info ''Watcher disconnected'' []], Some (done, bookmark))
         | EventsCase (Some e) # rest \<Rightarrow>
             (let (acts, bookmark) = handle_event Scheme_Convert Convert bookmark e;
                  (t, r) = event_loop Scheme_Convert Convert done opn bookmark rest
              in (EventsRecv (Some e) # acts @ t, r))
         | CloseCase # rest \<Rightarrow> ([CloseRecv], Some (True, bookmark)))
      else ([], Some (done, bookmark)))"

text \<open>
  The outer loop of the goroutine in \<open>NewWatcher\<close>. When the sessions given are used up
  and \<open>done\<close> is false, the goroutine has logged, has called \<^verbatim>\<open>watcher.Watch\<close> and
  waits for it to return.
\<close>

fun watcher_loop ::
  "('o \<Rightarrow> string option \<times> string) \<Rightarrow> ('o Event \<Rightarrow> 'o \<times> string option) \<Rightarrow>
   bool \<Rightarrow> string \<Rightarrow> 'o session list \<Rightarrow> 'o action list \<times> status" where
  "watcher_loop Scheme_Convert Convert done bookmark ss =
     (if done then ([], Returned)
      else
        (let listOptions = \<lparr>Watch = True, AllowWatchBookmarks = True, ResourceVersion = []\<rparr>;
             listOptions = (if bookmark \<noteq> [] then listOptions\<lparr>ResourceVersion := bookmark\<rparr>
                            else listOptions);
             connect = [Log Info ''Watcher connecting'' [], WatchCall listOptions]
         in (case ss of
               [] \<Rightarrow> (connect, InWatch)
             | WatchFails err # rest \<Rightarrow>
                 (let (t, s) = watcher_loop Scheme_Convert Convert done bookmark rest
                  in (connect @ [WatchReturned (Some err), Log Err ''Watcher connecting'' err,
                                 Sleep (2 * Second)] @ t, s))
             | WatchOpens ins # rest \<Rightarrow>
                 (case event_loop Scheme_Convert Convert done True bookmark ins of
                    (acts, None) \<Rightarrow> (connect @ [WatchReturned None] @ acts, InSelect)
                  | (acts, Some (done', bookmark')) \<Rightarrow>
                      (let (t, s) = watcher_loop Scheme_Convert Convert done' bookmark' rest
                       in (connect @ [WatchReturned None] @ acts @ [Sleep (2 * Second)] @ t,
                           s))))))"

text \<open>\<open>NewWatcher\<close> starts the goroutine with \<^verbatim>\<open>done := false\<close> and \<^verbatim>\<open>bookmark := ""\<close>.\<close>

definition NewWatcher ::
  "('o \<Rightarrow> string option \<times> string) \<Rightarrow> ('o Event \<Rightarrow> 'o \<times> string option) \<Rightarrow>
   'o session list \<Rightarrow> 'o action list \<times> status" where
  "NewWatcher Scheme_Convert Convert ss = watcher_loop Scheme_Convert Convert False [] ss"

text \<open>
  What one execution of the \<^verbatim>\<open>select\<close> in \<open>ShovelList\<close> takes: a tick, with what
  \<^verbatim>\<open>lister.List\<close> then returns (the list and the error), or the close signal.
\<close>

datatype 'o poll_case =
    TickCase "'o list" "string option"
  | PollCloseCase

text \<open>
  The goroutine of \<open>ShovelList\<close>. The statement \<^verbatim>\<open>sink <- v\<close> is a comment in the
  source, so the loop over the list only prints.
\<close>

fun ShovelList_loop :: "bool \<Rightarrow> 'o poll_case list \<Rightarrow> 'o action list \<times> status" where
  "ShovelList_loop done [] = (if done then ([], Returned) else ([], InSelect))"
| "ShovelList_loop done (c # rest) =
     (if done then ([], Returned)
      else
        (case c of
           TickCase list err \<Rightarrow>
             (let (t, s) = ShovelList_loop done rest
              in ([TickRecv,
                   ListCall \<lparr>Watch = False, AllowWatchBookmarks = True, ResourceVersion = []\<rparr>,
                   ListReturned list err] @
                  (case err of Some m \<Rightarrow> [Log Err ''Listing'' m] | None \<Rightarrow> []) @
                  map (Printf ''NewListItem: %+v\<newline>'') list @ t, s))
         | PollCloseCase \<Rightarrow>
             (let (t, s) = ShovelList_loop True rest in (CloseRecv # t, s))))"

definition ShovelList :: "'o poll_case list \<Rightarrow> 'o action list \<times> status" where
  "ShovelList ins = ShovelList_loop False ins"

text \<open>The values that a trace sends on the sink channel, in order.\<close>

fun sends :: "'o action list \<Rightarrow> 'o list" where
  "sends [] = []"
| "sends (Send w # tr) = w # sends tr"
| "sends (a # tr) = sends tr"


declare event_loop.simps [simp del]

declare watcher_loop.simps [simp del]

text \<open>The requests of the connect attempts in a trace, in order.\<close>

fun connects :: "'o action list \<Rightarrow> ListOptions list" where
  "connects [] = []"
| "connects (WatchCall opts # tr) = opts # connects tr"
| "connects (a # tr) = connects tr"






definition only_logs :: "'o action list \<Rightarrow> bool" where
  "only_logs acts =
     (\<forall>a\<in>set acts. case a of Log lvl m f \<Rightarrow> True | Printf f v \<Rightarrow> True | _ \<Rightarrow> False)"

section \<open>Theorems\<close>

lemma loop_body_submit:
  "loop_body lines (recv (submit rd)) =
     Continue (lines(Key rd \<mapsto> (case lines (Key rd) of Some val \<Rightarrow> Accept val rd | None \<Rightarrow> rd)))"
  by (simp add: submit_def split: option.splits)

lemma worker_submit_Cons:
  "worker lines (submit rd # es) =
     worker (lines(Key rd \<mapsto> (case lines (Key rd) of Some val \<Rightarrow> Accept val rd | None \<Rightarrow> rd))) es"
  by (simp add: loop_body_submit)

text \<open>
  Claim C1. For every existing reading \<open>r\<close> and incoming reading \<open>new\<close>, \<open>Accept\<close> returns
  \<open>r\<close> with \<open>Value = Value r + Value new\<close> and \<open>Time = Time new\<close> when the type of \<open>new\<close>
  is \<open>Counter\<close>, and \<open>r\<close> with \<open>Value = Value new\<close> and \<open>Time = Time new\<close> when it is
  \<open>Instant\<close>; \<open>Key\<close> and \<open>Type\<close> of the result are those of \<open>r\<close> in both cases.
\<close>

theorem Accept_merge:
  "(Type new = Counter \<longrightarrow>
      Accept r new = r\<lparr>Value := Value r + Value new, Time := Time new\<rparr>) \<and>
   (Type new = Instant \<longrightarrow>
      Accept r new = r\<lparr>Value := Value new, Time := Time new\<rparr>) \<and>
   Key (Accept r new) = Key r \<and> Type (Accept r new) = Type r"
  by (simp add: Accept_def Counter_def Instant_def)

theorem Accept_merge_witness:
  "Type \<lparr>Key = ''k'', Value = 3::real, Time = ''t2'', Type = Instant\<rparr> = Instant \<and>
   Type \<lparr>Key = ''k'', Value = 5::real, Time = ''t1'', Type = Counter\<rparr> = Counter \<and>
   Accept \<lparr>Key = ''k'', Value = 5::real, Time = ''t1'', Type = Counter\<rparr>
          \<lparr>Key = ''k'', Value = 3, Time = ''t2'', Type = Instant\<rparr>
     = \<lparr>Key = ''k'', Value = 3, Time = ''t2'', Type = Counter\<rparr> \<and>
   Accept \<lparr>Key = ''k'', Value = 3::real, Time = ''t2'', Type = Instant\<rparr>
          \<lparr>Key = ''k'', Value = 5, Time = ''t1'', Type = Counter\<rparr>
     = \<lparr>Key = ''k'', Value = 8, Time = ''t1'', Type = Instant\<rparr>"
  using Accept_merge [of "\<lparr>Key = ''k'', Value = 3::real, Time = ''t2'', Type = Instant\<rparr>"
                         "\<lparr>Key = ''k'', Value = 5::real, Time = ''t1'', Type = Counter\<rparr>"]
        Accept_merge [of "\<lparr>Key = ''k'', Value = 5::real, Time = ''t1'', Type = Counter\<rparr>"
                         "\<lparr>Key = ''k'', Value = 3::real, Time = ''t2'', Type = Instant\<rparr>"]
  by (simp add: Counter_def Instant_def)

lemma worker_submits:
  "\<exists>lines'. worker lines (map submit rs) = Blocked lines' \<and>
     (\<forall>k. lines' k = (case lines k of
                        None \<Rightarrow> merge_fold (for_key k rs)
                      | Some v \<Rightarrow> Some (foldl Accept v (for_key k rs))))"
proof (induction rs arbitrary: lines)
  case Nil
  show ?case by (simp add: merge_fold_def for_key_def split: option.splits)
next
  case (Cons rd rs)
  let ?l = "lines(Key rd \<mapsto> (case lines (Key rd) of Some val \<Rightarrow> Accept val rd | None \<Rightarrow> rd))"
  from Cons.IH [of ?l] obtain lines' where
    w: "worker ?l (map submit rs) = Blocked lines'" and
    l: "\<And>k. lines' k = (case ?l k of
                        None \<Rightarrow> merge_fold (for_key k rs)
                      | Some v \<Rightarrow> Some (foldl Accept v (for_key k rs)))"
    by blast
  have "worker lines (map submit (rd # rs)) = Blocked lines'"
    using w by (simp add: worker_submit_Cons del: worker.simps)
  moreover have "lines' k = (case lines k of
                        None \<Rightarrow> merge_fold (for_key k (rd # rs))
                      | Some v \<Rightarrow> Some (foldl Accept v (for_key k (rd # rs))))" for k
    using l [of k] by (simp add: merge_fold_def for_key_def split: option.splits)
  ultimately show ?case by blast
qed



text \<open>
  Claim C3. A reading processed for a key that the table does not hold is stored as it
  was received, whatever its type, and no other entry changes.
\<close>

theorem first_insert_verbatim:
  "lines (Key rd) = None \<Longrightarrow>
     loop_body lines (recv (submit rd)) = Continue (lines(Key rd \<mapsto> rd)) \<and>
     worker lines [submit rd] = Blocked (lines(Key rd \<mapsto> rd))"
  by (simp add: loop_body_submit)

theorem first_insert_verbatim_witness:
  "(Map.empty :: real lines) (Key \<lparr>Key = ''k'', Value = 5::real, Time = ''t'', Type = 0\<rparr>) = None \<and>
   worker Map.empty [submit \<lparr>Key = ''k'', Value = 5::real, Time = ''t'', Type = 0\<rparr>] =
     Blocked [''k'' \<mapsto> \<lparr>Key = ''k'', Value = 5, Time = ''t'', Type = 0\<rparr>]"
  using first_insert_verbatim [of "Map.empty :: real lines"
          "\<lparr>Key = ''k'', Value = 5::real, Time = ''t'', Type = 0\<rparr>"]
  by simp

text \<open>
  Claim C4. When the type of the incoming reading is neither \<open>Counter\<close> nor \<open>Instant\<close>,
  \<open>Accept\<close> returns the existing reading with every field as it was, and the table that
  holds the existing reading is the same table after the incoming one is processed.
\<close>

theorem Accept_unrecognized:
  "Type new \<noteq> Counter \<Longrightarrow> Type new \<noteq> Instant \<Longrightarrow>
     Accept r new = r \<and>
     (lines (Key new) = Some r \<longrightarrow> worker lines [submit new] = Blocked lines)"
  by (auto simp add: Accept_def loop_body_submit map_upd_triv)

theorem Accept_unrecognized_witness:
  "Type \<lparr>Key = ''k'', Value = 7::real, Time = ''t2'', Type = 0\<rparr> \<noteq> Counter \<and>
   Type \<lparr>Key = ''k'', Value = 7::real, Time = ''t2'', Type = 0\<rparr> \<noteq> Instant \<and>
   [''k'' \<mapsto> \<lparr>Key = ''k'', Value = 5::real, Time = ''t1'', Type = Counter\<rparr>]
     (Key \<lparr>Key = ''k'', Value = 7::real, Time = ''t2'', Type = 0\<rparr>) =
     Some \<lparr>Key = ''k'', Value = 5::real, Time = ''t1'', Type = Counter\<rparr> \<and>
   Accept \<lparr>Key = ''k'', Value = 5::real, Time = ''t1'', Type = Counter\<rparr>
          \<lparr>Key = ''k'', Value = 7, Time = ''t2'', Type = 0\<rparr>
     = \<lparr>Key = ''k'', Value = 5, Time = ''t1'', Type = Counter\<rparr> \<and>
   worker [''k'' \<mapsto> \<lparr>Key = ''k'', Value = 5::real, Time = ''t1'', Type = Counter\<rparr>]
          [submit \<lparr>Key = ''k'', Value = 7, Time = ''t2'', Type = 0\<rparr>]
     = Blocked [''k'' \<mapsto> \<lparr>Key = ''k'', Value = 5, Time = ''t1'', Type = Counter\<rparr>]"
  using Accept_unrecognized [of "\<lparr>Key = ''k'', Value = 7::real, Time = ''t2'', Type = 0\<rparr>"
          "\<lparr>Key = ''k'', Value = 5::real, Time = ''t1'', Type = Counter\<rparr>"
          "[''k'' \<mapsto> \<lparr>Key = ''k'', Value = 5::real, Time = ''t1'', Type = Counter\<rparr>]"]
  by (simp add: Counter_def Instant_def)

lemma recv_never_Break: "loop_body lines (recv e) \<noteq> Break l"
  by (cases e; cases "fst (recv e)") (auto split: option.splits)

lemma worker_never_Exited: "worker lines es \<noteq> Exited l"
  by (induction es arbitrary: lines) (auto split: step.splits simp: recv_never_Break)

lemma worker_panics:
  "\<exists>e\<in>set es. \<not> has_type_Reading e \<Longrightarrow> \<exists>p l. worker lines es = Panicked p l"
proof (induction es arbitrary: lines)
  case Nil
  then show ?case by simp
next
  case (Cons e es)
  show ?case
  proof (cases "loop_body lines (recv e)")
    case (Continue l')
    then have "has_type_Reading e"
      by (cases e; cases "fst (recv e)") (auto simp: has_type_Reading_def)
    with Cons.prems have "\<exists>e\<in>set es. \<not> has_type_Reading e" by auto
    from Cons.IH [OF this, of l'] Continue show ?thesis by simp
  next
    case (Break l')
    then show ?thesis by (simp add: recv_never_Break)
  next
    case (Panic p)
    then show ?thesis by simp
  qed
qed

lemma worker_total:
  assumes "\<forall>e\<in>set es. \<exists>rd. e = submit rd"
  shows "\<exists>l. worker lines es = Blocked l"
proof -
  from assms have "\<exists>rs. es = map submit rs"
    by (induction es) (auto intro: exI [of _ "_ # _"] simp: Cons_eq_map_conv)
  then show ?thesis using worker_submits by blast
qed

lemma worker_append_submits:
  "worker lines (map submit rs @ es) =
     (case worker lines (map submit rs) of Blocked l \<Rightarrow> worker l es | out \<Rightarrow> out)"
proof (induction rs arbitrary: lines)
  case Nil
  show ?case by simp
next
  case (Cons rd rs)
  show ?case
    by (simp only: list.map append_Cons worker_submit_Cons Cons.IH)
qed

lemma worker_assertion_panic:
  assumes "\<not> has_type_Reading e"
  shows "\<exists>l. worker lines (map submit rs @ e # post) = Panicked InterfaceConversion l"
proof -
  obtain l where l: "worker lines (map submit rs) = Blocked l"
    using worker_submits [of lines rs] by blast
  have "loop_body l (recv e) = Panic InterfaceConversion"
    using assms by (cases e; cases "fst (recv e)") (auto simp: has_type_Reading_def)
  then show ?thesis
    by (simp add: worker_append_submits l)
qed

lemma worker_Blocked_only_readings:
  assumes "worker lines es = Blocked l" and "e \<in> set es"
  shows "has_type_Reading e \<and> e \<noteq> ChannelClosed"
proof (rule ccontr)
  assume "\<not> (has_type_Reading e \<and> e \<noteq> ChannelClosed)"
  then have "\<not> has_type_Reading e"
    by (cases e) (simp_all add: has_type_Reading_def)
  with assms(2) have "\<exists>e\<in>set es. \<not> has_type_Reading e" by blast
  from worker_panics [OF this, of lines] assms(1) show False by simp
qed

text \<open>
  Claim C10. The type assertion runs before the closed flag is looked at. What a closed
  channel delivers makes the assertion panic; no receive reaches the \<^verbatim>\<open>break\<close>, so the
  goroutine never leaves the loop that way. In every run that comes to receive a value
  whose dynamic type is not \<^verbatim>\<open>*Reading\<close> (the prefix before it was merged), the goroutine
  panics on the assertion. If all receives given are taken without a panic, each of them
  delivered a \<^verbatim>\<open>*Reading\<close> and none was the closed channel; and when each one is the
  address of a reading, all of them are taken.
\<close>

theorem assertion_before_closed_check:
  "loop_body lines (recv ChannelClosed) = Panic InterfaceConversion \<and>
   (\<forall>l. loop_body lines (recv e) \<noteq> Break l) \<and>
   (\<forall>l. worker lines es \<noteq> Exited l) \<and>
   (\<not> has_type_Reading e \<longrightarrow>
      (\<exists>l. worker lines (map submit rs @ e # post) = Panicked InterfaceConversion l)) \<and>
   ((\<exists>l. worker lines es = Blocked l) \<longrightarrow>
      (\<forall>e\<in>set es. has_type_Reading e \<and> e \<noteq> ChannelClosed)) \<and>
   ((\<forall>e\<in>set es. \<exists>rd. e = submit rd) \<longrightarrow> (\<exists>l. worker lines es = Blocked l))"
proof (intro conjI allI impI ballI)
  show "loop_body lines (recv ChannelClosed) = Panic InterfaceConversion" by simp
next
  fix l show "loop_body lines (recv e) \<noteq> Break l" by (rule recv_never_Break)
next
  fix l show "worker lines es \<noteq> Exited l" by (rule worker_never_Exited)
next
  assume "\<not> has_type_Reading e"
  then show "\<exists>l. worker lines (map submit rs @ e # post) = Panicked InterfaceConversion l"
    by (rule worker_assertion_panic)
next
  fix e' assume "\<exists>l. worker lines es = Blocked l" and "e' \<in> set es"
  then show "has_type_Reading e'" using worker_Blocked_only_readings by blast
next
  fix e' assume "\<exists>l. worker lines es = Blocked l" and "e' \<in> set es"
  then show "e' \<noteq> ChannelClosed" using worker_Blocked_only_readings by blast
next
  assume "\<forall>e\<in>set es. \<exists>rd. e = submit rd"
  then show "\<exists>l. worker lines es = Blocked l" by (rule worker_total)
qed

theorem assertion_before_closed_check_witness:
  "\<not> has_type_Reading (ChannelClosed :: real receive) \<and>
   (\<exists>l. worker (Map.empty :: real lines)
     (map submit [\<lparr>Key = ''k'', Value = 5::real, Time = ''t'', Type = Counter\<rparr>] @ ChannelClosed # []) =
     Panicked InterfaceConversion l) \<and>
   (\<exists>rd. submit \<lparr>Key = ''k'', Value = 5::real, Time = ''t'', Type = Counter\<rparr> = submit rd) \<and>
   (\<exists>l. worker (Map.empty :: real lines)
      [submit \<lparr>Key = ''k'', Value = 5::real, Time = ''t'', Type = Counter\<rparr>] = Blocked l) \<and>
   has_type_Reading (submit \<lparr>Key = ''k'', Value = 5::real, Time = ''t'', Type = Counter\<rparr>) \<and>
   submit \<lparr>Key = ''k'', Value = 5::real, Time = ''t'', Type = Counter\<rparr> \<noteq> ChannelClosed"
proof -
  let ?r = "\<lparr>Key = ''k'', Value = 5::real, Time = ''t'', Type = Counter\<rparr>"
  note t = assertion_before_closed_check [where lines = "Map.empty :: real lines"
      and e = ChannelClosed and es = "[submit ?r]" and rs = "[?r]" and post = "[]"]
  have n: "\<not> has_type_Reading (ChannelClosed :: real receive)"
    by (simp add: has_type_Reading_def)
  have s: "\<forall>e\<in>set [submit ?r]. \<exists>rd. e = submit rd" by (simp, blast)
  from t n have p: "\<exists>l. worker (Map.empty :: real lines) (map submit [?r] @ ChannelClosed # []) =
     Panicked InterfaceConversion l" by blast
  from t s have b: "\<exists>l. worker (Map.empty :: real lines) [submit ?r] = Blocked l" by blast
  from t b have o: "\<forall>e\<in>set [submit ?r]. has_type_Reading e \<and> e \<noteq> ChannelClosed" by blast
  from n p s b o show ?thesis by simp
qed

lemma sends_append: "sends (xs @ ys) = sends xs @ sends ys"
  by (induction xs rule: sends.induct) simp_all

lemma sends_Printf: "sends (map (Printf f) list) = []"
  by (induction list) simp_all

lemma sends_ShovelList_loop: "sends (fst (ShovelList_loop d ins)) = []"
proof (induction ins arbitrary: d)
  case Nil
  show ?case by simp
next
  case (Cons c rest)
  show ?case
  proof (cases c)
    case (TickCase list err)
    then show ?thesis
      using Cons.IH [of False]
      by (cases err) (auto simp add: sends_append sends_Printf split: prod.splits)
  next
    case PollCloseCase
    then show ?thesis
      using Cons.IH [of True] by (auto split: prod.splits)
  qed
qed

text \<open>
  Claim C7. Whatever ticks, list results and close signals the list poller is given, its
  trace sends nothing on the sink channel (the items are only printed), and the
  aggregation goroutine fed with what the poller sent leaves the table as it was.
\<close>

theorem ShovelList_sends_nothing:
  "sends (fst (ShovelList ins)) = [] \<and>
   worker lines (map Received (sends (fst (ShovelList ins)))) = Blocked lines"
  by (simp add: ShovelList_def sends_ShovelList_loop)

lemma handler_loop_lines:
  "handler_loop Sprintf_f kvs w = w @ concat (map (line Sprintf_f) kvs)"
  by (induction kvs arbitrary: w) (auto simp: Write_def line_def)

lemma ranges_over_set:
  assumes "ranges_over kvs lines"
  shows "set kvs = {(k, v). lines k = Some v}"
  using assms by (auto simp: ranges_over_def)

lemma ranges_over_length:
  assumes "ranges_over kvs lines"
  shows "length kvs = card (dom lines)"
proof -
  from assms have d: "distinct (map fst kvs)" and m: "map_of kvs = lines"
    by (simp_all add: ranges_over_def)
  have "card (dom lines) = card (set (map fst kvs))"
    unfolding m [symmetric] by (simp add: dom_map_of_conv_image_fst)
  also have "\<dots> = length (map fst kvs)"
    using d by (rule distinct_card)
  finally show ?thesis by simp
qed

lemma two_entries:
  assumes "ranges_over kvs [a \<mapsto> ra, b \<mapsto> rb]" and "a \<noteq> b"
  shows "kvs = [(a, ra), (b, rb)] \<or> kvs = [(b, rb), (a, ra)]"
proof -
  have s: "set kvs = {(a, ra), (b, rb)}"
    using ranges_over_set [OF assms(1)] assms(2) by (auto split: if_splits)
  have "card (dom [a \<mapsto> ra, b \<mapsto> rb]) = 2"
    using assms(2) by simp
  then have "length kvs = 2"
    using ranges_over_length [OF assms(1)] by simp
  then obtain x y where k: "kvs = [x, y]"
    by (auto simp: length_Suc_conv numeral_2_eq_2)
  from assms(1) k have "x \<noteq> y" by (auto simp: ranges_over_def)
  with s k show ?thesis by (auto simp: doubleton_eq_iff)
qed

text \<open>
  Claim C8. For every iteration order of the table, the response body is the
  concatenation of one line per entry, key, space, \<^verbatim>\<open>%f\<close> rendering of the value,
  newline: as many lines as the table has keys, for exactly its entries. The empty table
  gives an empty body; the table with \<open>a\<close> and \<open>b\<close>, whose values render as
  \<open>1.000000\<close> and \<open>2.000000\<close>, gives these two lines in one of the two orders.
\<close>

theorem CreateHandler_lines:
  assumes "ranges_over kvs lines"
  shows "CreateHandler Sprintf_f kvs = concat (map (line Sprintf_f) kvs) \<and>
         length kvs = card (dom lines) \<and>
         set kvs = {(k, v). lines k = Some v} \<and>
         (lines = Map.empty \<longrightarrow> CreateHandler Sprintf_f kvs = []) \<and>
         (lines = [''a'' \<mapsto> ra, ''b'' \<mapsto> rb] \<and>
          Sprintf_f (Value ra) = ''1.000000'' \<and> Sprintf_f (Value rb) = ''2.000000'' \<longrightarrow>
            CreateHandler Sprintf_f kvs = ''a 1.000000\<newline>b 2.000000\<newline>'' \<or>
            CreateHandler Sprintf_f kvs = ''b 2.000000\<newline>a 1.000000\<newline>'')"
proof (intro conjI impI)
  show c: "CreateHandler Sprintf_f kvs = concat (map (line Sprintf_f) kvs)"
    by (simp add: CreateHandler_def handler_loop_lines)
  show "length kvs = card (dom lines)"
    using assms by (rule ranges_over_length)
  show "set kvs = {(k, v). lines k = Some v}"
    using assms by (rule ranges_over_set)
  show "CreateHandler Sprintf_f kvs = []" if "lines = Map.empty"
    using ranges_over_set [OF assms] that by (simp add: CreateHandler_def)
  show "CreateHandler Sprintf_f kvs = ''a 1.000000\<newline>b 2.000000\<newline>'' \<or>
        CreateHandler Sprintf_f kvs = ''b 2.000000\<newline>a 1.000000\<newline>''"
    if h: "lines = [''a'' \<mapsto> ra, ''b'' \<mapsto> rb] \<and>
          Sprintf_f (Value ra) = ''1.000000'' \<and> Sprintf_f (Value rb) = ''2.000000''"
  proof -
    from assms h have "ranges_over kvs [''a'' \<mapsto> ra, ''b'' \<mapsto> rb]" by simp
    then have "kvs = [(''a'', ra), (''b'', rb)] \<or> kvs = [(''b'', rb), (''a'', ra)]"
      by (rule two_entries) simp
    then show ?thesis
    proof
      assume "kvs = [(''a'', ra), (''b'', rb)]"
      then have "CreateHandler Sprintf_f kvs = ''a 1.000000\<newline>b 2.000000\<newline>''"
        using h by (simp add: CreateHandler_def handler_loop_lines line_def)
      then show ?thesis by (rule disjI1)
    next
      assume "kvs = [(''b'', rb), (''a'', ra)]"
      then have "CreateHandler Sprintf_f kvs = ''b 2.000000\<newline>a 1.000000\<newline>''"
        using h by (simp add: CreateHandler_def handler_loop_lines line_def)
      then show ?thesis by (rule disjI2)
    qed
  qed
qed

lemma Sprintf_d_0: "Sprintf_d 0 = ''0''"
  by (simp add: Sprintf_d_def digits.simps)

lemma Sprintf_d_1: "Sprintf_d 1 = ''1''"
  by (simp add: Sprintf_d_def digits.simps)

lemma Sprintf_d_2: "Sprintf_d 2 = ''2''"
  by (simp add: Sprintf_d_def digits.simps)

lemma Sprintf_d_1700000000: "Sprintf_d 1700000000 = ''1700000000''"
  by (simp add: Sprintf_d_def digits.simps)

theorem CreateHandler_lines_witness:
  "ranges_over [(''b'', \<lparr>Key = ''b'', Value = 2::int, Time = ''t'', Type = Instant\<rparr>),
                (''a'', \<lparr>Key = ''a'', Value = 1::int, Time = ''t'', Type = Counter\<rparr>)]
     [''a'' \<mapsto> \<lparr>Key = ''a'', Value = 1::int, Time = ''t'', Type = Counter\<rparr>,
      ''b'' \<mapsto> \<lparr>Key = ''b'', Value = 2::int, Time = ''t'', Type = Instant\<rparr>] \<and>
   CreateHandler (\<lambda>i. Sprintf_d i @ ''.000000'')
     [(''b'', \<lparr>Key = ''b'', Value = 2::int, Time = ''t'', Type = Instant\<rparr>),
      (''a'', \<lparr>Key = ''a'', Value = 1::int, Time = ''t'', Type = Counter\<rparr>)] =
     ''b 2.000000\<newline>a 1.000000\<newline>'' \<and>
   ranges_over [] (Map.empty :: int lines) \<and>
   CreateHandler (\<lambda>i. Sprintf_d i @ ''.000000'') ([] :: (string \<times> int Reading) list) = []"
proof -
  let ?ra = "\<lparr>Key = ''a'', Value = 1::int, Time = ''t'', Type = Counter\<rparr>"
  let ?rb = "\<lparr>Key = ''b'', Value = 2::int, Time = ''t'', Type = Instant\<rparr>"
  let ?f = "\<lambda>i. Sprintf_d i @ ''.000000''"
  have r: "ranges_over [(''b'', ?rb), (''a'', ?ra)] [''a'' \<mapsto> ?ra, ''b'' \<mapsto> ?rb]"
    by (simp add: ranges_over_def)
  have e: "ranges_over [] (Map.empty :: int lines)"
    by (simp add: ranges_over_def)
  have "CreateHandler ?f [(''b'', ?rb), (''a'', ?ra)] = ''b 2.000000\<newline>a 1.000000\<newline>''"
    using CreateHandler_lines [OF r, of ?f ?ra ?rb]
    by (simp add: line_def Sprintf_d_1 Sprintf_d_2)
  moreover have "CreateHandler ?f ([] :: (string \<times> int Reading) list) = []"
    using CreateHandler_lines [OF e, of ?f] by simp
  ultimately show ?thesis using r e by blast
qed

text \<open>
  Claim C9. The claim is that \<open>render\<close> produces the metric name, then the label set in
  braces, the value and the timestamp. The code never writes \<open>name\<close> to the buffer: the
  result is the same for every name and begins with the brace.
\<close>

theorem render_without_name:
  "render name value time labels = render [] value time labels \<and>
   render ''up'' ''1'' 0 [] = ''{} 1 0'' \<and>
   render ''up'' ''1'' 1700000000 [[(''pod'', ''a'')], [(''ns'', ''b'')]] =
     ''{pod='' @ [CHR 0x22] @ ''a'' @ [CHR 0x22] @ '', ns='' @ [CHR 0x22] @ ''b'' @ [CHR 0x22] @
     ''} 1 1700000000''"
proof (intro conjI)
  show "render name value time labels = render [] value time labels"
    by (simp add: render_def)
  show "render ''up'' ''1'' 0 [] = ''{} 1 0''"
    by (simp add: render_def Sprintf_d_0)
  show "render ''up'' ''1'' 1700000000 [[(''pod'', ''a'')], [(''ns'', ''b'')]] =
     ''{pod='' @ [CHR 0x22] @ ''a'' @ [CHR 0x22] @ '', ns='' @ [CHR 0x22] @ ''b'' @ [CHR 0x22] @
     ''} 1 1700000000''"
    by (simp add: render_def Sprintf_d_1700000000)
qed

subsection \<open>The watch reconnector: unfolding the loops\<close>






lemma watcher_loop_done:
  "watcher_loop SC C True b ss = ([], Returned)"
  by (simp add: watcher_loop.simps)

lemma watcher_loop_Nil:
  "watcher_loop SC C False b [] =
     ([Log Info ''Watcher connecting'' [],
       WatchCall \<lparr>Watch = True, AllowWatchBookmarks = True, ResourceVersion = b\<rparr>], InWatch)"
  by (simp add: watcher_loop.simps Let_def)

lemma watcher_loop_Fails:
  "watcher_loop SC C False b (WatchFails err # rest) =
     ([Log Info ''Watcher connecting'' [],
       WatchCall \<lparr>Watch = True, AllowWatchBookmarks = True, ResourceVersion = b\<rparr>,
       WatchReturned (Some err), Log Err ''Watcher connecting'' err, Sleep (2 * Second)] @
      fst (watcher_loop SC C False b rest),
      snd (watcher_loop SC C False b rest))"
  by (subst watcher_loop.simps) (simp add: split_beta Let_def)

lemma watcher_loop_Opens_waiting:
  "event_loop SC C False True b ins = (acts, None) \<Longrightarrow>
   watcher_loop SC C False b (WatchOpens ins # rest) =
     ([Log Info ''Watcher connecting'' [],
       WatchCall \<lparr>Watch = True, AllowWatchBookmarks = True, ResourceVersion = b\<rparr>,
       WatchReturned None] @ acts, InSelect)"
  by (subst watcher_loop.simps) (simp add: split_beta Let_def)

lemma watcher_loop_Opens_left:
  "event_loop SC C False True b ins = (acts, Some (d', b')) \<Longrightarrow>
   watcher_loop SC C False b (WatchOpens ins # rest) =
     ([Log Info ''Watcher connecting'' [],
       WatchCall \<lparr>Watch = True, AllowWatchBookmarks = True, ResourceVersion = b\<rparr>,
       WatchReturned None] @ acts @ [Sleep (2 * Second)] @
      fst (watcher_loop SC C d' b' rest),
      snd (watcher_loop SC C d' b' rest))"
  by (subst watcher_loop.simps) (simp add: split_beta Let_def)


subsection \<open>The watch reconnector: one event\<close>

lemma only_logs_Nil: "only_logs []"
  by (simp add: only_logs_def)








lemma only_logs_CloseRecv: "only_logs xs \<Longrightarrow> CloseRecv \<notin> set xs"
  by (auto simp: only_logs_def)

subsection \<open>The watch reconnector: the inner loop\<close>













subsection \<open>The watch reconnector: the outer loop\<close>



lemmas watcher_loop_unfold =
  watcher_loop_done watcher_loop_Nil watcher_loop_Fails watcher_loop_Opens_waiting
  watcher_loop_Opens_left






subsection \<open>The watch reconnector: from the checks to positions in the trace\<close>






text \<open>
  An illustration of the last sentence: a bookmark with token \<open>42\<close>, then a bookmark whose
  conversion fails and leaves the pod empty, then the channel closes. The second connect
  attempt carries no resource version.
\<close>

lemma failed_bookmark_conversion_example:
  "connects (fst (NewWatcher (\<lambda>obj. if obj = ''bad'' then (Some ''cannot convert'', []) else (None, obj))
                    (\<lambda>e. (Object e, None))
          [WatchOpens [EventsCase (Some (Event Bookmark ''42'')),
                       EventsCase (Some (Event Bookmark ''bad'')), EventsCase None]])) =
     [\<lparr>Watch = True, AllowWatchBookmarks = True, ResourceVersion = []\<rparr>,
      \<lparr>Watch = True, AllowWatchBookmarks = True, ResourceVersion = []\<rparr>]"
  by (simp add: NewWatcher_def watcher_loop.simps event_loop.simps handle_event_def)




end
